theory Spec2Isabelle
  imports Main
begin

section \<open>The namespace rule of eslint-plugin-import\<close>

text \<open>
  A shallow embedding of \<^verbatim>\<open>src/rules/namespace.js\<close>. The rule keeps one table per
  linted file, \<^verbatim>\<open>namespaces\<close>, from local identifiers to the export map of the module they
  were imported from, and checks every dereference of such an identifier against that map.
  Each handler of the rule is a function that returns the reports it passes to
  \<^verbatim>\<open>context.report\<close>, in the order of the calls. The handler for
  \<^verbatim>\<open>ExportNamespaceSpecifier\<close>, which neither reads nor writes the table, is left out.
\<close>

subsection \<open>Export maps\<close>

text \<open>
  Modelled from the spec: the class \<^verbatim>\<open>ExportMap\<close> (\<^verbatim>\<open>src/ExportMap.js\<close>) is not part of the
  sources at hand. The spec gives its interface: \<^verbatim>\<open>size\<close> (the count of exported names),
  \<^verbatim>\<open>has(name)\<close>, \<^verbatim>\<open>get(name)\<close>, which yields \<^verbatim>\<open>null\<close> or a descriptor whose field
  \<^verbatim>\<open>namespace\<close>, if present, is an export map again, and \<^verbatim>\<open>errors\<close>, a list. An export
  map is a table of entries; a name whose entry is \<open>None\<close> is exported (\<^verbatim>\<open>has\<close> holds) but
  unresolved (\<^verbatim>\<open>get\<close> yields \<^verbatim>\<open>null\<close>). The nesting is finite here: a walk of the rule follows
  one hop of it per segment of the expression it checks.
\<close>

datatype export_map = ExportMap (errors: "string list") (entries: "(string \<times> descriptor option) list")
  and descriptor = Descriptor (namespace: "export_map option")

text \<open>
  Modelled from the spec: the methods \<^verbatim>\<open>has(name)\<close> and \<^verbatim>\<open>get(name)\<close> of the absent class
  \<^verbatim>\<open>ExportMap\<close>. \<^verbatim>\<open>get\<close> yields \<^verbatim>\<open>null\<close> (here \<open>None\<close>) for a name that is absent or
  unresolved, and a descriptor otherwise. A name read off a node is \<^verbatim>\<open>undefined\<close> when the
  node has no field \<^verbatim>\<open>name\<close>; \<open>None\<close> stands for it as an argument, and no export map has
  an entry for it.
\<close>

definition has :: "export_map \<Rightarrow> string option \<Rightarrow> bool" where
  "has m key = (case key of None \<Rightarrow> False | Some n \<Rightarrow> n \<in> set (map fst (entries m)))"

definition get :: "export_map \<Rightarrow> string option \<Rightarrow> descriptor option" where
  "get m key =
     (case key of
        None \<Rightarrow> None
      | Some n \<Rightarrow> (case map_of (entries m) n of None \<Rightarrow> None | Some d \<Rightarrow> d))"

text \<open>
  Modelled from the spec: the getter \<^verbatim>\<open>size\<close> of the absent class \<^verbatim>\<open>ExportMap\<close>, the count of
  exported names.
\<close>

definition size_em :: "export_map \<Rightarrow> nat" where
  "size_em m = length (remdups (map fst (entries m)))"

subsection \<open>Syntax trees\<close>

text \<open>
  The ESTree nodes the handlers look at. \<open>OtherNode t\<close> is a node of any other type \<open>t\<close>.
  Identifiers and JSX identifiers have a field \<^verbatim>\<open>name\<close>.
\<close>

datatype node =
    Identifier string
  | MemberExpression (object: node) (property: node) (computed: bool)
  | AssignmentExpression (left: node) (right: node)
  | JSXIdentifier string
  | JSXMemberExpression node node
  | OtherNode string

text \<open>
  ESLint gives every node a field \<^verbatim>\<open>parent\<close>. A value of type \<open>parent\<close> is the parent of a
  node as seen from that node: the parent's type, the slot of the parent the node sits in,
  the parent's other children, and the parent's own parent. A member expression and an
  assignment are expressions, so they always have a parent; a parent of any other type
  closes the chain, since the rule never looks above one.
\<close>

datatype parent =
    OtherParent string
  | MemberObject node bool parent
  | MemberProperty node parent
  | AssignmentLeft node parent
  | AssignmentRight node parent

text \<open>
  \<open>MemberObject p c up\<close>: the parent is the member expression with this node as its
  \<^verbatim>\<open>object\<close>, \<open>p\<close> as its \<^verbatim>\<open>property\<close> and \<open>c\<close> as \<^verbatim>\<open>computed\<close>.
  \<open>MemberProperty ob up\<close>: the parent is \<^verbatim>\<open>ob[this]\<close>, a computed member expression with
  this node as its \<^verbatim>\<open>property\<close>. \<open>AssignmentLeft r up\<close> and \<open>AssignmentRight l up\<close>: the
  parent is an assignment with this node on its left, or on its right.
\<close>

fun parent_node :: "parent \<Rightarrow> node \<Rightarrow> node" where
  "parent_node (OtherParent t) n = OtherNode t"
| "parent_node (MemberObject p c up) n = MemberExpression n p c"
| "parent_node (MemberProperty ob up) n = MemberExpression ob n True"
| "parent_node (AssignmentLeft r up) n = AssignmentExpression n r"
| "parent_node (AssignmentRight l up) n = AssignmentExpression l n"

fun name :: "node \<Rightarrow> string option" where
  "name (Identifier n) = Some n"
| "name (JSXIdentifier n) = Some n"
| "name _ = None"

text \<open>A value interpolated into a template string; \<^verbatim>\<open>undefined\<close> prints as its name.\<close>

fun str :: "string option \<Rightarrow> string" where
  "str None = ''undefined''"
| "str (Some s) = s"

definition quote :: string where
  "quote = [CHR 0x27]"

fun join :: "string list \<Rightarrow> string \<Rightarrow> string" where
  "join [] sep = []"
| "join [x] sep = x"
| "join (x # y # ys) sep = x @ sep @ join (y # ys) sep"

subsection \<open>Destructuring patterns and import declarations\<close>

text \<open>
  A property of an object pattern has a \<^verbatim>\<open>key\<close> (absent for some node types, hence the
  option) and a \<^verbatim>\<open>value\<close>, the pattern bound to it; the two rest forms have neither.
  \<open>OtherPattern t\<close> is a pattern of any other type (an identifier, an array pattern).
\<close>

datatype pattern = ObjectPattern "property list" | OtherPattern string
  and property =
      Property "node option" pattern
    | RestElement
    | ExperimentalRestProperty

text \<open>
  The \<^verbatim>\<open>imported\<close> field of an import specifier is an identifier (with a \<^verbatim>\<open>name\<close>) or a
  string literal (with a \<^verbatim>\<open>value\<close>); each specifier has the \<^verbatim>\<open>name\<close> of its \<^verbatim>\<open>local\<close>
  identifier.
\<close>

datatype imported = ImportedIdentifier string | ImportedLiteral string

datatype specifier =
    ImportNamespaceSpecifier string
  | ImportDefaultSpecifier string
  | ImportSpecifier imported string

datatype statement =
    ImportDeclaration string "specifier list"
  | OtherStatement string

subsection \<open>Reports\<close>

text \<open>A report is the node \<^verbatim>\<open>context.report\<close> is given and the message.\<close>

datatype location =
    AtNode node
  | AtProperty property
  | AtSpecifier specifier
  | AtDeclaration statement

type_synonym report = "location \<times> string"

type_synonym namespaces = "string \<rightharpoonup> export_map"

text \<open>
  What the rule reads from its context: the option \<^verbatim>\<open>allowComputed\<close>, the resolver
  \<^verbatim>\<open>Exports.get(source, context)\<close> (\<open>None\<close> for \<^verbatim>\<open>null\<close>) and the scope oracle
  \<^verbatim>\<open>declaredScope(context, name)\<close> (\<open>None\<close> for \<^verbatim>\<open>undefined\<close>). Both functions are
  imported from outside the rule and are parameters here.
\<close>

record env =
  allowComputed :: bool
  resolve :: "string \<Rightarrow> export_map option"
  declaredScope :: "string \<Rightarrow> string option"

text \<open>
  Modelled from the spec: \<^verbatim>\<open>reportErrors\<close> is a method of the absent class
  \<^verbatim>\<open>ExportMap\<close>; the spec says that the errors are forwarded as diagnostics attached to the
  import declaration.
\<close>

definition reportErrors :: "export_map \<Rightarrow> statement \<Rightarrow> report list" where
  "reportErrors imports declaration = map (\<lambda>e. (AtDeclaration declaration, e)) (errors imports)"

definition emptyMessage :: "string \<Rightarrow> string" where
  "emptyMessage src = ''No exported names found in module '' @ quote @ src @ quote @ ''.''"

definition assignmentMessage :: "string option \<Rightarrow> string" where
  "assignmentMessage n = ''Assignment to member of namespace '' @ quote @ str n @ quote @ ''.''"

definition computedMessage :: "string option \<Rightarrow> string" where
  "computedMessage n =
     ''Unable to validate computed reference to imported namespace '' @ quote @ str n @ quote @ ''.''"

definition makeMessage :: "node \<Rightarrow> string list \<Rightarrow> string" where
  "makeMessage last' namepath =
     quote @ str (name last') @ quote @ '' not found in ''
       @ (if length namepath > 1 then ''deeply '' else [])
       @ ''imported namespace '' @ quote @ join namepath ''.'' @ quote @ ''.''"

subsection \<open>Collecting the imports\<close>

definition importedName :: "imported \<Rightarrow> string" where
  "importedName i = (case i of ImportedIdentifier n \<Rightarrow> n | ImportedLiteral v \<Rightarrow> v)"

text \<open>
  The callback of \<^verbatim>\<open>declaration.specifiers.forEach\<close>: the table after the specifier and the
  reports it makes.
\<close>

definition bindNamed :: "export_map \<Rightarrow> string \<Rightarrow> string \<Rightarrow> namespaces \<Rightarrow> namespaces" where
  "bindNamed imports imp loc nss =
     (case get imports (Some imp) of
        None \<Rightarrow> nss
      | Some meta \<Rightarrow> (case namespace meta of None \<Rightarrow> nss | Some ns \<Rightarrow> nss(loc \<mapsto> ns)))"

fun processSpecifier :: "string \<Rightarrow> export_map \<Rightarrow> specifier \<Rightarrow> namespaces \<Rightarrow> namespaces \<times> report list" where
  "processSpecifier src imports (ImportNamespaceSpecifier loc) nss =
     (nss(loc \<mapsto> imports),
      if size_em imports = 0
      then [(AtSpecifier (ImportNamespaceSpecifier loc), emptyMessage src)] else [])"
| "processSpecifier src imports (ImportDefaultSpecifier loc) nss =
     (bindNamed imports ''default'' loc nss, [])"
| "processSpecifier src imports (ImportSpecifier imp loc) nss =
     (bindNamed imports (importedName imp) loc nss, [])"

fun processSpecifiers :: "string \<Rightarrow> export_map \<Rightarrow> specifier list \<Rightarrow> namespaces \<Rightarrow> namespaces \<times> report list" where
  "processSpecifiers src imports [] nss = (nss, [])"
| "processSpecifiers src imports (s # ss) nss =
     (case processSpecifier src imports s nss of
        (nss1, r1) \<Rightarrow>
          (case processSpecifiers src imports ss nss1 of (nss2, r2) \<Rightarrow> (nss2, r1 @ r2)))"

definition processBodyStatement :: "env \<Rightarrow> namespaces \<Rightarrow> statement \<Rightarrow> namespaces \<times> report list" where
  "processBodyStatement e nss declaration =
     (case declaration of
        OtherStatement t \<Rightarrow> (nss, [])
      | ImportDeclaration src specs \<Rightarrow>
          if length specs = 0 then (nss, [])
          else
            (case resolve e src of
               None \<Rightarrow> (nss, [])
             | Some imports \<Rightarrow>
                 if length (errors imports) > 0 then (nss, reportErrors imports declaration)
                 else processSpecifiers src imports specs nss))"

text \<open>
  \<^verbatim>\<open>Program\<close> runs over the body of the file, starting from the table it is given (the
  rule creates an empty one for each file).
\<close>

fun processBody :: "env \<Rightarrow> statement list \<Rightarrow> namespaces \<Rightarrow> namespaces \<times> report list" where
  "processBody e [] nss = (nss, [])"
| "processBody e (x # xs) nss =
     (case processBodyStatement e nss x of
        (nss1, r1) \<Rightarrow> (case processBody e xs nss1 of (nss2, r2) \<Rightarrow> (nss2, r1 @ r2)))"

definition Program :: "env \<Rightarrow> statement list \<Rightarrow> namespaces \<times> report list" where
  "Program e body = processBody e body Map.empty"

subsection \<open>Member expressions\<close>

text \<open>
  The loop of the handler. Its state is the current \<^verbatim>\<open>namespace\<close> (\<open>None\<close> when the value is
  not an export map), the \<^verbatim>\<open>namepath\<close> and the node \<^verbatim>\<open>dereference\<close>, here with its parent.
  The step \<^verbatim>\<open>dereference = dereference.parent\<close> and the test that the new node is a member
  expression are the case distinction on the parent. The key pushed on the path is a
  string, since \<open>has\<close> holds of it.
\<close>

fun walk :: "bool \<Rightarrow> export_map option \<Rightarrow> string list \<Rightarrow> node \<Rightarrow> parent \<Rightarrow> report list" where
  "walk ac None namepath dereference par = []"
| "walk ac (Some ns) namepath (MemberExpression ob prop cpd) par =
     (if cpd then
        (if \<not> ac then [(AtNode prop, computedMessage (name ob))] else [])
      else if \<not> has ns (name prop) then [(AtNode prop, makeMessage prop namepath)]
      else
        (case get ns (name prop) of
           None \<Rightarrow> []
         | Some exported \<Rightarrow>
             (case par of
                MemberObject p c up \<Rightarrow>
                  walk ac (namespace exported) (namepath @ [str (name prop)])
                    (MemberExpression (MemberExpression ob prop cpd) p c) up
              | MemberProperty o' up \<Rightarrow>
                  walk ac (namespace exported) (namepath @ [str (name prop)])
                    (MemberExpression o' (MemberExpression ob prop cpd) True) up
              | _ \<Rightarrow> [])))"
| "walk ac (Some ns) namepath dereference par = []"

definition assignmentReport :: "node \<Rightarrow> parent \<Rightarrow> report list" where
  "assignmentReport dereference par =
     (case par of
        AssignmentLeft r up \<Rightarrow>
          [(AtNode (parent_node par dereference), assignmentMessage (name (object dereference)))]
      | _ \<Rightarrow> [])"

text \<open>The visitor is called on member expressions only; on any other node it does nothing.\<close>

definition MemberExpression_handler :: "env \<Rightarrow> namespaces \<Rightarrow> node \<Rightarrow> parent \<Rightarrow> report list" where
  "MemberExpression_handler e nss dereference par =
     (case dereference of
        MemberExpression (Identifier n) prop cpd \<Rightarrow>
          (case nss n of
             None \<Rightarrow> []
           | Some ns \<Rightarrow>
               if declaredScope e n \<noteq> Some ''module'' then []
               else assignmentReport dereference par
                      @ walk (allowComputed e) (Some ns) [n] dereference par)
      | _ \<Rightarrow> [])"

subsection \<open>Destructuring\<close>

text \<open>
  \<^verbatim>\<open>testKey\<close> pushes the key on \<^verbatim>\<open>path\<close> before the recursive call and pops it after; the
  recursive call gets the longer path and the siblings the one before.
\<close>

fun testKey :: "pattern \<Rightarrow> export_map option \<Rightarrow> string list \<Rightarrow> report list"
  and testProperties :: "property list \<Rightarrow> export_map \<Rightarrow> string list \<Rightarrow> report list" where
  "testKey pat None path = []"
| "testKey (OtherPattern t) (Some ns) path = []"
| "testKey (ObjectPattern props) (Some ns) path = testProperties props ns path"
| "testProperties [] ns path = []"
| "testProperties (RestElement # ps) ns path = testProperties ps ns path"
| "testProperties (ExperimentalRestProperty # ps) ns path = testProperties ps ns path"
| "testProperties (Property None v # ps) ns path = testProperties ps ns path"
| "testProperties (Property (Some k) v # ps) ns path =
     (case k of
        Identifier kn \<Rightarrow>
          if \<not> has ns (Some kn) then
            (AtProperty (Property (Some k) v), makeMessage k path) # testProperties ps ns path
          else
            (case get ns (Some kn) of
               None \<Rightarrow> []
             | Some dependencyExportMap \<Rightarrow>
                 testKey v (namespace dependencyExportMap) (path @ [kn]))
              @ testProperties ps ns path
      | _ \<Rightarrow>
          (AtProperty (Property (Some k) v), ''Only destructure top-level names.'')
            # testProperties ps ns path)"

definition VariableDeclarator_handler :: "env \<Rightarrow> namespaces \<Rightarrow> pattern \<Rightarrow> node option \<Rightarrow> report list" where
  "VariableDeclarator_handler e nss ident init =
     (case init of
        Some (Identifier n) \<Rightarrow>
          (case nss n of
             None \<Rightarrow> []
           | Some ns \<Rightarrow>
               if declaredScope e n \<noteq> Some ''module'' then []
               else testKey ident (Some ns) [n])
      | _ \<Rightarrow> [])"

subsection \<open>JSX member expressions\<close>

definition JSXMemberExpression_handler :: "env \<Rightarrow> namespaces \<Rightarrow> node \<Rightarrow> node \<Rightarrow> report list" where
  "JSXMemberExpression_handler e nss ob prop =
     (case name ob of
        None \<Rightarrow> []
      | Some n \<Rightarrow>
          (case nss n of
             None \<Rightarrow> []
           | Some ns \<Rightarrow>
               if \<not> has ns (name prop)
               then [(AtNode prop, makeMessage prop [str (name ob)])] else []))"

section \<open>Stating the properties\<close>

text \<open>
  The definitions of this section are not part of the rule; the theorems are stated with
  them.
\<close>

subsection \<open>Chains of member expressions and nested patterns\<close>

text \<open>
  \<open>descend m segs\<close> follows the names \<open>segs\<close> through nested export maps: it is \<open>Some mk\<close>
  when every name is exported by the map reached so far, resolves to a descriptor and that
  descriptor carries a namespace, the last of which is \<open>mk\<close>.
\<close>

fun descend :: "export_map \<Rightarrow> string list \<Rightarrow> export_map option" where
  "descend m [] = Some m"
| "descend m (s # ss) =
     (if has m (Some s) then
        (case get m (Some s) of
           None \<Rightarrow> None
         | Some d \<Rightarrow> (case namespace d of None \<Rightarrow> None | Some m' \<Rightarrow> descend m' ss))
      else None)"

text \<open>
  \<open>dotted segs up\<close> is the parent of a node \<^verbatim>\<open>x\<close> in the expression \<^verbatim>\<open>x.s1.s2...sk\<close>, itself
  in the position \<open>up\<close>; \<open>selects d segs\<close> is the expression \<^verbatim>\<open>d.s1.s2...sk\<close>.
\<close>

fun dotted :: "string list \<Rightarrow> parent \<Rightarrow> parent" where
  "dotted [] up = up"
| "dotted (s # ss) up = MemberObject (Identifier s) False (dotted ss up)"

fun selects :: "node \<Rightarrow> string list \<Rightarrow> node" where
  "selects d [] = d"
| "selects d (s # ss) = selects (MemberExpression d (Identifier s) False) ss"

text \<open>
  ESLint calls the handler once for each member expression of the file. \<open>visitChain\<close>
  collects the reports of the calls for the member expressions of one chain: the one with
  \<open>ob\<close> as its object, the one with that as its object, and so on upwards.
\<close>

fun visitChain :: "env \<Rightarrow> namespaces \<Rightarrow> node \<Rightarrow> parent \<Rightarrow> report list" where
  "visitChain e nss ob (MemberObject p c up) =
     MemberExpression_handler e nss (MemberExpression ob p c) up
       @ visitChain e nss (MemberExpression ob p c) up"
| "visitChain e nss ob par = []"

text \<open>
  \<open>nest segs pat\<close> is the pattern \<^verbatim>\<open>{ s1: { s2: ... { sk: pat } } }\<close>: the pattern \<open>pat\<close> under
  the keys \<open>segs\<close>.
\<close>

fun nest :: "string list \<Rightarrow> pattern \<Rightarrow> pattern" where
  "nest [] pat = pat"
| "nest (s # ss) pat = ObjectPattern [Property (Some (Identifier s)) (nest ss pat)]"

subsection \<open>Import specifiers\<close>

fun local_name :: "specifier \<Rightarrow> string" where
  "local_name (ImportNamespaceSpecifier loc) = loc"
| "local_name (ImportDefaultSpecifier loc) = loc"
| "local_name (ImportSpecifier imp loc) = loc"

fun isNamespaceSpecifier :: "specifier \<Rightarrow> bool" where
  "isNamespaceSpecifier (ImportNamespaceSpecifier loc) = True"
| "isNamespaceSpecifier _ = False"

text \<open>
  The namespace a specifier stands for, given the export map of its module: the map itself
  for a wildcard, the namespace of the imported name (if it has one) otherwise.
\<close>

fun specifierNamespace :: "export_map \<Rightarrow> specifier \<Rightarrow> export_map option" where
  "specifierNamespace imports (ImportNamespaceSpecifier loc) = Some imports"
| "specifierNamespace imports (ImportDefaultSpecifier loc) =
     (case get imports (Some ''default'') of None \<Rightarrow> None | Some meta \<Rightarrow> namespace meta)"
| "specifierNamespace imports (ImportSpecifier imp loc) =
     (case get imports (Some (importedName imp)) of None \<Rightarrow> None | Some meta \<Rightarrow> namespace meta)"

text \<open>
  The export map \<^verbatim>\<open>processBodyStatement\<close> resolves for a statement: the value of its variable
  \<^verbatim>\<open>imports\<close> once the function is past its first three returns, \<open>None\<close> when it takes one
  of them (no import declaration, no specifier, or a module that does not resolve).
\<close>

definition resolvedExportMap :: "env \<Rightarrow> statement \<Rightarrow> export_map option" where
  "resolvedExportMap e declaration =
     (case declaration of
        OtherStatement t \<Rightarrow> None
      | ImportDeclaration src specs \<Rightarrow> if length specs = 0 then None else resolve e src)"

text \<open>
  \<open>bindsTo e l ns stmt\<close>: the statement is an import declaration whose module resolves to an
  export map without errors, and one of its specifiers has the local name \<open>l\<close> and stands
  for the namespace \<open>ns\<close>.
\<close>

definition bindsTo :: "env \<Rightarrow> string \<Rightarrow> export_map \<Rightarrow> statement \<Rightarrow> bool" where
  "bindsTo e l ns stmt =
     (case stmt of
        OtherStatement t \<Rightarrow> False
      | ImportDeclaration src specs \<Rightarrow>
          (case resolve e src of
             None \<Rightarrow> False
           | Some imports \<Rightarrow>
               errors imports = []
               \<and> list_ex (\<lambda>s. local_name s = l \<and> specifierNamespace imports s = Some ns) specs))"

subsection \<open>Example modules\<close>

text \<open>
  A module \<^verbatim>\<open>./m\<close> that exports the namespace \<^verbatim>\<open>a\<close> (with the exports \<^verbatim>\<open>b\<close> and \<^verbatim>\<open>u\<close>), the
  value \<^verbatim>\<open>v\<close> and the unresolved name \<^verbatim>\<open>u\<close>; a module \<^verbatim>\<open>./broken\<close> with a resolution error; a
  module \<^verbatim>\<open>./empty\<close> without exports; a file that imports \<^verbatim>\<open>./m\<close> as \<^verbatim>\<open>ns\<close> and as \<^verbatim>\<open>sh\<close>, where
  \<^verbatim>\<open>sh\<close> is declared again in a function.
\<close>

definition ex_inner :: export_map where
  "ex_inner = ExportMap [] [(''b'', Some (Descriptor None)), (''u'', None)]"

definition ex_root :: export_map where
  "ex_root = ExportMap []
     [(''a'', Some (Descriptor (Some ex_inner))), (''v'', Some (Descriptor None)), (''u'', None)]"

definition ex_broken :: export_map where
  "ex_broken = ExportMap [''parse error''] [(''a'', Some (Descriptor (Some ex_inner)))]"

definition ex_empty :: export_map where
  "ex_empty = ExportMap [] []"

definition ex_resolve :: "string \<Rightarrow> export_map option" where
  "ex_resolve s =
     (if s = ''./m'' then Some ex_root
      else if s = ''./broken'' then Some ex_broken
      else if s = ''./empty'' then Some ex_empty
      else None)"

definition ex_env :: env where
  "ex_env = \<lparr>allowComputed = False,
              resolve = ex_resolve,
              declaredScope = (\<lambda>n. if n = ''ns'' then Some ''module'' else Some ''function'')\<rparr>"

definition ex_nss :: namespaces where
  "ex_nss = [''ns'' \<mapsto> ex_root, ''sh'' \<mapsto> ex_root]"

section \<open>Properties of the member expression handler\<close>

lemma dotted_append: "dotted (xs @ ys) up = dotted xs (dotted ys up)"
  by (induction xs) simp_all

lemma handler_not_root:
  "MemberExpression_handler e nss (MemberExpression (MemberExpression a b c) p q) par = []"
  by (simp add: MemberExpression_handler_def)

lemma visitChain_member: "visitChain e nss (MemberExpression a b c) par = []"
  by (induction par arbitrary: a b c) (simp_all add: handler_not_root)

lemma walk_computed:
  "walk ac (Some ns) path (MemberExpression ob prop True) par =
     (if \<not> ac then [(AtNode prop, computedMessage (name ob))] else [])"
  by simp

lemma walk_absent:
  "\<not> has ns (name prop) \<Longrightarrow>
   walk ac (Some ns) path (MemberExpression ob prop False) par =
     [(AtNode prop, makeMessage prop path)]"
  by simp

lemma walk_null:
  "has ns (name prop) \<Longrightarrow> get ns (name prop) = None \<Longrightarrow>
   walk ac (Some ns) path (MemberExpression ob prop False) par = []"
  by simp

lemma walk_step:
  "has m (Some s) \<Longrightarrow> get m (Some s) = Some d \<Longrightarrow>
   walk ac (Some m) path (MemberExpression ob (Identifier s) False) (MemberObject p c up) =
     walk ac (namespace d) (path @ [s])
       (MemberExpression (MemberExpression ob (Identifier s) False) p c) up"
  by simp

lemma descend_Cons:
  "descend m (s # ss) = Some mk \<Longrightarrow>
   \<exists>d m'. has m (Some s) \<and> get m (Some s) = Some d \<and> namespace d = Some m'
     \<and> descend m' ss = Some mk"
  by (auto split: if_splits option.splits)

text \<open>
  The loop invariant: while the segments resolve to nested export maps, the loop climbs one
  member expression per segment and appends the segment to the path.
\<close>

lemma walk_resolved:
  "descend m (s # ss) = Some mk \<Longrightarrow>
   walk ac (Some m) path (MemberExpression ob (Identifier s) False) (dotted ss (MemberObject p c up))
     = walk ac (Some mk) (path @ s # ss)
         (MemberExpression (selects (MemberExpression ob (Identifier s) False) ss) p c) up"
proof (induction ss arbitrary: m s ob path)
  case Nil
  from descend_Cons [OF Nil.prems] obtain d where
    "has m (Some s)" "get m (Some s) = Some d" "namespace d = Some mk"
    by auto
  then show ?case
    using walk_step [of m s d ac path ob p c up] by simp
next
  case (Cons t ts)
  from descend_Cons [OF Cons.prems] obtain d m' where
    h: "has m (Some s)" and g: "get m (Some s) = Some d" and n: "namespace d = Some m'"
    and r: "descend m' (t # ts) = Some mk"
    by auto
  have "walk ac (Some m) path (MemberExpression ob (Identifier s) False)
          (dotted (t # ts) (MemberObject p c up))
        = walk ac (Some m') (path @ [s])
            (MemberExpression (MemberExpression ob (Identifier s) False) (Identifier t) False)
            (dotted ts (MemberObject p c up))"
    using walk_step [OF h g] n by simp
  also have "\<dots> = walk ac (Some mk) ((path @ [s]) @ t # ts)
      (MemberExpression
         (selects (MemberExpression (MemberExpression ob (Identifier s) False) (Identifier t) False) ts)
         p c) up"
    by (rule Cons.IH [OF r])
  finally show ?case by simp
qed

lemma handler_root:
  "nss n = Some m \<Longrightarrow> declaredScope e n = Some ''module'' \<Longrightarrow>
   MemberExpression_handler e nss (MemberExpression (Identifier n) p c) par =
     assignmentReport (MemberExpression (Identifier n) p c) par
       @ walk (allowComputed e) (Some m) [n] (MemberExpression (Identifier n) p c) par"
  by (simp add: MemberExpression_handler_def)

lemma assignmentReport_inner:
  "assignmentReport d (dotted ss (MemberObject p c up)) = []"
  by (cases ss) (simp_all add: assignmentReport_def)

text \<open>
  Claim C1. Take a chain \<^verbatim>\<open>n.s1...sk.x\<close> (continued in any way above \<^verbatim>\<open>x\<close>) whose root \<^verbatim>\<open>n\<close>
  has an entry in the table and is declared in module scope. If the segments \<^verbatim>\<open>s1...sk\<close>
  resolve to nested export maps and the map reached does not export \<^verbatim>\<open>x\<close>, the calls of the
  handler for the member expressions of the chain make exactly one not-found report. It is
  at \<^verbatim>\<open>x\<close>, its message is built from the path \<^verbatim>\<open>n.s1...sk\<close> of length k+1 and says
  \<^verbatim>\<open>deeply\<close> exactly when that length exceeds 1, and it is the same whatever follows \<^verbatim>\<open>x\<close> in
  the chain: no later segment is looked at. The only other report there can be is the
  one for an assignment to \<^verbatim>\<open>n.x\<close>, made before the loop starts.
\<close>

theorem first_missing_segment_reported_once:
  assumes "nss n = Some m" and "declaredScope e n = Some ''module''"
    and "descend m segs = Some mk" and "\<not> has mk (Some x)"
  shows "visitChain e nss (Identifier n) (dotted (segs @ [x]) up) =
           (if segs = [] then assignmentReport (MemberExpression (Identifier n) (Identifier x) False) up
            else [])
           @ [(AtNode (Identifier x),
               quote @ x @ quote @ '' not found in ''
                 @ (if length (n # segs) > 1 then ''deeply '' else [])
                 @ ''imported namespace '' @ quote @ join (n # segs) ''.'' @ quote @ ''.'')]"
proof (cases segs)
  case Nil
  with assms have "\<not> has m (Some x)" by simp
  then have "walk (allowComputed e) (Some m) [n]
      (MemberExpression (Identifier n) (Identifier x) False) up
      = [(AtNode (Identifier x), makeMessage (Identifier x) [n])]"
    using walk_absent [of m "Identifier x"] by simp
  with Nil assms(1,2) show ?thesis
    by (simp add: visitChain_member handler_root makeMessage_def del: walk.simps)
next
  case (Cons s ss)
  have "walk (allowComputed e) (Some m) [n] (MemberExpression (Identifier n) (Identifier s) False)
          (dotted ss (MemberObject (Identifier x) False up))
        = walk (allowComputed e) (Some mk) ([n] @ s # ss)
            (MemberExpression (selects (MemberExpression (Identifier n) (Identifier s) False) ss)
               (Identifier x) False) up"
    using assms(3) Cons by (intro walk_resolved) simp
  also have "\<dots> = [(AtNode (Identifier x), makeMessage (Identifier x) ([n] @ s # ss))]"
    using assms(4) walk_absent [of mk "Identifier x"] by simp
  finally show ?thesis
    using Cons assms(1,2)
    by (simp add: visitChain_member handler_root dotted_append assignmentReport_inner
          makeMessage_def del: walk.simps)
qed

theorem first_missing_segment_reported_once_witness:
  "ex_nss ''ns'' = Some ex_root \<and> declaredScope ex_env ''ns'' = Some ''module''
   \<and> descend ex_root [''a''] = Some ex_inner \<and> \<not> has ex_inner (Some ''c'')
   \<and> visitChain ex_env ex_nss (Identifier ''ns'')
        (dotted ([''a''] @ [''c''])
           (MemberObject (Identifier ''d'') False (OtherParent ''ExpressionStatement'')))
      = [(AtNode (Identifier ''c''), '''c' not found in deeply imported namespace 'ns.a'.'')]"
proof -
  have h1: "ex_nss ''ns'' = Some ex_root" by (simp add: ex_nss_def)
  have h2: "declaredScope ex_env ''ns'' = Some ''module''" by (simp add: ex_env_def)
  have h3: "descend ex_root [''a''] = Some ex_inner" by (simp add: ex_root_def has_def get_def)
  have h4: "\<not> has ex_inner (Some ''c'')" by (simp add: ex_inner_def has_def)
  show ?thesis
    using first_missing_segment_reported_once [where nss = ex_nss and n = "''ns''"
        and m = ex_root and e = ex_env and segs = "[''a'']" and mk = ex_inner and x = "''c''"
        and up = "MemberObject (Identifier ''d'') False (OtherParent ''ExpressionStatement'')"]
      h1 h2 h3 h4
    by (simp add: quote_def)
qed

lemma name_selects: "name (selects (MemberExpression a b c) ss) = None"
  by (induction ss arbitrary: a b c) simp_all

text \<open>
  Claim C3. A member expression \<^verbatim>\<open>n.p\<close> or \<^verbatim>\<open>n[p]\<close> whose object \<^verbatim>\<open>n\<close> has an entry in the table
  and is declared in module scope, and that is the left-hand side of the assignment
  enclosing it, gets the illegal-assignment report, at the assignment, whatever the
  property is and whatever the namespace exports: the reports of the handler are that
  report and then those of the loop.
\<close>

theorem assignment_always_reported:
  assumes "nss n = Some m" and "declaredScope e n = Some ''module''"
  shows "MemberExpression_handler e nss (MemberExpression (Identifier n) pr c)
           (AssignmentLeft r up)
         = (AtNode (AssignmentExpression (MemberExpression (Identifier n) pr c) r),
            ''Assignment to member of namespace '' @ quote @ n @ quote @ ''.'')
           # walk (allowComputed e) (Some m) [n] (MemberExpression (Identifier n) pr c)
               (AssignmentLeft r up)"
  using assms by (simp add: handler_root assignmentReport_def assignmentMessage_def del: walk.simps)

theorem assignment_always_reported_witness:
  "ex_nss ''ns'' = Some ex_root \<and> declaredScope ex_env ''ns'' = Some ''module''
   \<and> has ex_root (Some ''v'')
   \<and> MemberExpression_handler ex_env ex_nss
        (MemberExpression (Identifier ''ns'') (Identifier ''v'') False)
        (AssignmentLeft (OtherNode ''Literal'') (OtherParent ''ExpressionStatement''))
      = [(AtNode (AssignmentExpression
                    (MemberExpression (Identifier ''ns'') (Identifier ''v'') False)
                    (OtherNode ''Literal'')),
          ''Assignment to member of namespace 'ns'.'')]"
proof -
  have h1: "ex_nss ''ns'' = Some ex_root" by (simp add: ex_nss_def)
  have h2: "declaredScope ex_env ''ns'' = Some ''module''" by (simp add: ex_env_def)
  have h3: "has ex_root (Some ''v'')" by (simp add: ex_root_def has_def)
  have h4: "walk (allowComputed ex_env) (Some ex_root) [''ns'']
              (MemberExpression (Identifier ''ns'') (Identifier ''v'') False)
              (AssignmentLeft (OtherNode ''Literal'') (OtherParent ''ExpressionStatement'')) = []"
    by (simp add: ex_root_def has_def get_def)
  show ?thesis
    using assignment_always_reported [where nss = ex_nss and n = "''ns''" and m = ex_root
        and e = ex_env and pr = "Identifier ''v''" and c = False and r = "OtherNode ''Literal''"
        and up = "OtherParent ''ExpressionStatement''"]
      h1 h2 h3 h4
    by (simp add: quote_def)
qed

text \<open>
  Claim C10. The assignment report does not end the handler: for \<^verbatim>\<open>n.x = r\<close>, where \<^verbatim>\<open>n\<close> has
  an entry in the table and is declared in module scope and the namespace does not export
  \<^verbatim>\<open>x\<close>, the handler makes two reports, the illegal-assignment report at the assignment and
  then the not-found report at \<^verbatim>\<open>x\<close>.
\<close>

theorem assignment_to_missing_member_two_reports:
  assumes "nss n = Some m" and "declaredScope e n = Some ''module''" and "\<not> has m (Some x)"
  shows "MemberExpression_handler e nss (MemberExpression (Identifier n) (Identifier x) False)
           (AssignmentLeft r up)
         = [(AtNode (AssignmentExpression (MemberExpression (Identifier n) (Identifier x) False) r),
             assignmentMessage (Some n)),
            (AtNode (Identifier x), makeMessage (Identifier x) [n])]"
  using assms walk_absent [of m "Identifier x"]
  by (simp add: handler_root assignmentReport_def del: walk.simps)

theorem assignment_to_missing_member_two_reports_witness:
  "ex_nss ''ns'' = Some ex_root \<and> declaredScope ex_env ''ns'' = Some ''module''
   \<and> \<not> has ex_root (Some ''x'')
   \<and> MemberExpression_handler ex_env ex_nss
        (MemberExpression (Identifier ''ns'') (Identifier ''x'') False)
        (AssignmentLeft (OtherNode ''Literal'') (OtherParent ''ExpressionStatement''))
      = [(AtNode (AssignmentExpression
                    (MemberExpression (Identifier ''ns'') (Identifier ''x'') False)
                    (OtherNode ''Literal'')),
          ''Assignment to member of namespace 'ns'.''),
         (AtNode (Identifier ''x''), '''x' not found in imported namespace 'ns'.'')]"
proof -
  have h1: "ex_nss ''ns'' = Some ex_root" by (simp add: ex_nss_def)
  have h2: "declaredScope ex_env ''ns'' = Some ''module''" by (simp add: ex_env_def)
  have h3: "\<not> has ex_root (Some ''x'')" by (simp add: ex_root_def has_def)
  show ?thesis
    using assignment_to_missing_member_two_reports [where nss = ex_nss and n = "''ns''"
        and m = ex_root and e = ex_env and x = "''x''" and r = "OtherNode ''Literal''"
        and up = "OtherParent ''ExpressionStatement''"]
      h1 h2 h3
    by (simp add: quote_def assignmentMessage_def makeMessage_def)
qed

text \<open>
  Claim C4 speaks of every computed access on a chain rooted at a bound namespace
  identifier and of exactly one report for it. Two files show that it fails as worded,
  both with \<^verbatim>\<open>allowComputed\<close> false. In \<^verbatim>\<open>ns.v[k]\<close>, where \<^verbatim>\<open>v\<close> is exported by \<^verbatim>\<open>./m\<close> as a plain
  value, the loop ends after \<^verbatim>\<open>v\<close>: the handler makes no report, neither for the member
  expression \<^verbatim>\<open>ns.v\<close> nor for \<^verbatim>\<open>ns.v[k]\<close>. In \<^verbatim>\<open>ns[ns.a]\<close>, where \<^verbatim>\<open>a\<close> is a namespace, the
  computed access gets the report twice: once from the call for \<^verbatim>\<open>ns[ns.a]\<close> itself and once
  from the call for the key \<^verbatim>\<open>ns.a\<close>, whose loop climbs to the parent of the key.
\<close>

theorem computed_access_after_value_counterexample:
  "ex_nss ''ns'' = Some ex_root \<and> declaredScope ex_env ''ns'' = Some ''module''
   \<and> \<not> allowComputed ex_env
   \<and> MemberExpression_handler ex_env ex_nss
        (MemberExpression (Identifier ''ns'') (Identifier ''v'') False)
        (MemberObject (Identifier ''k'') True (OtherParent ''ExpressionStatement'')) = []
   \<and> MemberExpression_handler ex_env ex_nss
        (MemberExpression (MemberExpression (Identifier ''ns'') (Identifier ''v'') False)
           (Identifier ''k'') True)
        (OtherParent ''ExpressionStatement'') = []
   \<and> MemberExpression_handler ex_env ex_nss
        (MemberExpression (Identifier ''ns'')
           (MemberExpression (Identifier ''ns'') (Identifier ''a'') False) True)
        (OtherParent ''ExpressionStatement'')
      = [(AtNode (MemberExpression (Identifier ''ns'') (Identifier ''a'') False),
          ''Unable to validate computed reference to imported namespace 'ns'.'')]
   \<and> MemberExpression_handler ex_env ex_nss
        (MemberExpression (Identifier ''ns'') (Identifier ''a'') False)
        (MemberProperty (Identifier ''ns'') (OtherParent ''ExpressionStatement''))
      = [(AtNode (MemberExpression (Identifier ''ns'') (Identifier ''a'') False),
          ''Unable to validate computed reference to imported namespace 'ns'.'')]"
  by (simp add: ex_nss_def ex_env_def ex_root_def ex_inner_def MemberExpression_handler_def
        assignmentReport_def has_def get_def computedMessage_def quote_def)

text \<open>
  Claim C4, amended. Take a chain \<^verbatim>\<open>n.s1...sk[p]\<close> (continued in any way above the computed
  access) whose root \<^verbatim>\<open>n\<close> has an entry in the table and is declared in module scope, and
  whose segments \<^verbatim>\<open>s1...sk\<close> resolve to nested export maps, so that the loop reaches the
  computed access. The walk of that chain, that is, the calls of the handler for the
  member expressions of the chain itself, makes exactly one report when \<^verbatim>\<open>allowComputed\<close> is
  false, the unvalidatable-reference report at \<^verbatim>\<open>p\<close>, and none when it is true. In both
  cases the result is the same whatever follows the computed access: the loop has
  stopped. The name in the message is that of the object of the computed access,
  \<^verbatim>\<open>undefined\<close> when the object is itself a member expression. The only other report of
  these calls there can be is the one for an assignment to \<^verbatim>\<open>n[p]\<close>, made before the loop
  starts. The reports of the calls for member expressions inside the key \<^verbatim>\<open>p\<close> are not
  counted here. The second part is the step of the loop itself: in any state with a
  current export map, a computed access ends the loop with that one report or with none.
\<close>

theorem computed_access_stops_walk:
  assumes "nss n = Some m" and "declaredScope e n = Some ''module''"
    and "descend m segs = Some mk"
  shows "visitChain e nss (Identifier n) (dotted segs (MemberObject p True up)) =
           (if segs = [] then assignmentReport (MemberExpression (Identifier n) p True) up else [])
           @ (if allowComputed e then []
              else [(AtNode p,
                     ''Unable to validate computed reference to imported namespace ''
                       @ quote @ (if segs = [] then n else ''undefined'') @ quote @ ''.'')])
         \<and> walk ac (Some ns) path (MemberExpression ob p True) par =
             (if ac then [] else [(AtNode p, computedMessage (name ob))])"
proof -
  have chain: "visitChain e nss (Identifier n) (dotted segs (MemberObject p True up)) =
           (if segs = [] then assignmentReport (MemberExpression (Identifier n) p True) up else [])
           @ (if allowComputed e then []
              else [(AtNode p,
                     ''Unable to validate computed reference to imported namespace ''
                       @ quote @ (if segs = [] then n else ''undefined'') @ quote @ ''.'')])"
  proof (cases segs)
    case Nil
    with assms show ?thesis
      using walk_computed [of "allowComputed e" m "[n]" "Identifier n" p up]
      by (simp add: visitChain_member handler_root computedMessage_def del: walk.simps)
  next
    case (Cons s ss)
    have "walk (allowComputed e) (Some m) [n] (MemberExpression (Identifier n) (Identifier s) False)
            (dotted ss (MemberObject p True up))
          = walk (allowComputed e) (Some mk) ([n] @ s # ss)
              (MemberExpression (selects (MemberExpression (Identifier n) (Identifier s) False) ss)
                 p True) up"
      using assms(3) Cons by (intro walk_resolved) simp
    also have "\<dots> = (if \<not> allowComputed e
         then [(AtNode p, computedMessage
                  (name (selects (MemberExpression (Identifier n) (Identifier s) False) ss)))]
         else [])"
      by (rule walk_computed)
    finally show ?thesis
      using Cons assms(1,2)
      by (simp add: visitChain_member handler_root assignmentReport_inner computedMessage_def
            name_selects del: walk.simps)
  qed
  have loop: "walk ac (Some ns) path (MemberExpression ob p True) par =
             (if ac then [] else [(AtNode p, computedMessage (name ob))])"
    using walk_computed [of ac ns path ob p par] by simp
  show ?thesis by (rule conjI [OF chain loop])
qed

theorem computed_access_stops_walk_witness:
  "ex_nss ''ns'' = Some ex_root \<and> declaredScope ex_env ''ns'' = Some ''module''
   \<and> descend ex_root [''a''] = Some ex_inner \<and> \<not> allowComputed ex_env
   \<and> visitChain ex_env ex_nss (Identifier ''ns'')
        (dotted [''a''] (MemberObject (Identifier ''k'') True
           (MemberObject (Identifier ''z'') False (OtherParent ''ExpressionStatement''))))
      = [(AtNode (Identifier ''k''),
          ''Unable to validate computed reference to imported namespace 'undefined'.'')]
   \<and> visitChain (ex_env\<lparr>allowComputed := True\<rparr>) ex_nss (Identifier ''ns'')
        (dotted [] (MemberObject (Identifier ''k'') True
           (MemberObject (Identifier ''z'') False (OtherParent ''ExpressionStatement''))))
      = []"
proof -
  have h1: "ex_nss ''ns'' = Some ex_root" by (simp add: ex_nss_def)
  have h2: "declaredScope ex_env ''ns'' = Some ''module''" by (simp add: ex_env_def)
  have h2': "declaredScope (ex_env\<lparr>allowComputed := True\<rparr>) ''ns'' = Some ''module''"
    by (simp add: ex_env_def)
  have h3: "descend ex_root [''a''] = Some ex_inner" by (simp add: ex_root_def has_def get_def)
  have h3': "descend ex_root [] = Some ex_root" by simp
  have h4: "\<not> allowComputed ex_env" by (simp add: ex_env_def)
  show ?thesis
    using computed_access_stops_walk [where nss = ex_nss and n = "''ns''"
        and m = ex_root and e = ex_env and segs = "[''a'']" and mk = ex_inner
        and p = "Identifier ''k''"
        and up = "MemberObject (Identifier ''z'') False (OtherParent ''ExpressionStatement'')"]
      computed_access_stops_walk [where nss = ex_nss and n = "''ns''"
        and m = ex_root and e = "ex_env\<lparr>allowComputed := True\<rparr>" and segs = "[]" and mk = ex_root
        and p = "Identifier ''k''"
        and up = "MemberObject (Identifier ''z'') False (OtherParent ''ExpressionStatement'')"]
      h1 h2 h2' h3 h3' h4
    by (simp add: quote_def assignmentReport_def)
qed

text \<open>
  When the name \<^verbatim>\<open>n\<close> has an entry in the table but the scope oracle does not answer
  \<^verbatim>\<open>module\<close> for it, the call of the member expression handler for a member expression on
  \<^verbatim>\<open>n\<close> makes no report, and neither does the call of the variable declarator handler for
  a pattern initialised with \<^verbatim>\<open>n\<close>.
\<close>

lemma shadowed_handlers_silent:
  assumes "nss n = Some m" and "declaredScope e n \<noteq> Some ''module''"
  shows "MemberExpression_handler e nss (MemberExpression (Identifier n) pr c) par = []
         \<and> VariableDeclarator_handler e nss pat (Some (Identifier n)) = []"
  using assms by (simp add: MemberExpression_handler_def VariableDeclarator_handler_def)

text \<open>
  Claim C8 says that no dereference of a name with a table entry and a scope other than
  \<^verbatim>\<open>module\<close> gets a report. The code breaks this in two places. The name \<^verbatim>\<open>sh\<close> has an entry
  in the table and the oracle answers \<^verbatim>\<open>function\<close> for it. First, the JSX handler lacks
  the scope test that the other two handlers make: for the tag \<^verbatim>\<open>sh.x\<close> it reports that
  \<^verbatim>\<open>x\<close> is not found in \<^verbatim>\<open>sh\<close>. Second, in \<^verbatim>\<open>sh[ns.a]\<close>, with \<^verbatim>\<open>ns\<close> in module scope and \<^verbatim>\<open>a\<close> a
  namespace, the call for \<^verbatim>\<open>sh[ns.a]\<close> makes no report, but the loop of the call for the key
  \<^verbatim>\<open>ns.a\<close> climbs to the parent of the key and reports a computed reference to the
  namespace \<^verbatim>\<open>sh\<close>.
\<close>

theorem shadowed_name_reported_anyway:
  "ex_nss ''sh'' = Some ex_root \<and> declaredScope ex_env ''sh'' = Some ''function''
   \<and> ex_nss ''ns'' = Some ex_root \<and> declaredScope ex_env ''ns'' = Some ''module''
   \<and> JSXMemberExpression_handler ex_env ex_nss (JSXIdentifier ''sh'') (JSXIdentifier ''x'')
      = [(AtNode (JSXIdentifier ''x''), '''x' not found in imported namespace 'sh'.'')]
   \<and> MemberExpression_handler ex_env ex_nss
        (MemberExpression (Identifier ''sh'')
           (MemberExpression (Identifier ''ns'') (Identifier ''a'') False) True)
        (OtherParent ''ExpressionStatement'') = []
   \<and> MemberExpression_handler ex_env ex_nss
        (MemberExpression (Identifier ''ns'') (Identifier ''a'') False)
        (MemberProperty (Identifier ''sh'') (OtherParent ''ExpressionStatement''))
      = [(AtNode (MemberExpression (Identifier ''ns'') (Identifier ''a'') False),
          ''Unable to validate computed reference to imported namespace 'sh'.'')]"
  by (simp add: ex_nss_def ex_env_def ex_root_def ex_inner_def MemberExpression_handler_def
        JSXMemberExpression_handler_def assignmentReport_def has_def get_def
        computedMessage_def makeMessage_def quote_def)

text \<open>
  Claim C9. The JSX handler does not ask the scope oracle. For a tag \<^verbatim>\<open>n.x\<close> where \<^verbatim>\<open>n\<close> has
  an entry in the table and the namespace does not export \<^verbatim>\<open>x\<close>, it makes the not-found
  report even when the oracle does not answer \<^verbatim>\<open>module\<close> for \<^verbatim>\<open>n\<close>, where the member
  expression handler makes no report for \<^verbatim>\<open>n.x\<close>; and its reports are the same under every
  other oracle \<open>f\<close>.
\<close>

theorem jsx_ignores_scope:
  assumes "nss n = Some m" and "\<not> has m (Some x)" and "declaredScope e n \<noteq> Some ''module''"
  shows "JSXMemberExpression_handler e nss (JSXIdentifier n) (JSXIdentifier x)
           = [(AtNode (JSXIdentifier x),
               quote @ x @ quote @ '' not found in imported namespace '' @ quote @ n @ quote @ ''.'')]
         \<and> MemberExpression_handler e nss (MemberExpression (Identifier n) (Identifier x) False) par
             = []
         \<and> JSXMemberExpression_handler (e\<lparr>declaredScope := f\<rparr>) nss ob pr
             = JSXMemberExpression_handler e nss ob pr"
  using assms
  by (simp add: JSXMemberExpression_handler_def MemberExpression_handler_def makeMessage_def)

theorem jsx_ignores_scope_witness:
  "ex_nss ''sh'' = Some ex_root \<and> \<not> has ex_root (Some ''x'')
   \<and> declaredScope ex_env ''sh'' \<noteq> Some ''module''
   \<and> JSXMemberExpression_handler ex_env ex_nss (JSXIdentifier ''sh'') (JSXIdentifier ''x'')
        = [(AtNode (JSXIdentifier ''x''), '''x' not found in imported namespace 'sh'.'')]
   \<and> MemberExpression_handler ex_env ex_nss
        (MemberExpression (Identifier ''sh'') (Identifier ''x'') False)
        (OtherParent ''ExpressionStatement'') = []"
proof -
  have h1: "ex_nss ''sh'' = Some ex_root" by (simp add: ex_nss_def)
  have h2: "\<not> has ex_root (Some ''x'')" by (simp add: ex_root_def has_def)
  have h3: "declaredScope ex_env ''sh'' \<noteq> Some ''module''" by (simp add: ex_env_def)
  show ?thesis
    using jsx_ignores_scope [where nss = ex_nss and n = "''sh''" and m = ex_root
        and e = ex_env and x = "''x''" and par = "OtherParent ''ExpressionStatement''"]
      h1 h2 h3
    by (simp add: quote_def)
qed

section \<open>Properties of the variable declarator handler\<close>

lemma testProperties_append:
  "testProperties (xs @ ys) ns path = testProperties xs ns path @ testProperties ys ns path"
proof (induction xs)
  case Nil
  show ?case by simp
next
  case (Cons p ps)
  show ?case
  proof (cases p)
    case (Property k v)
    with Cons show ?thesis
      by (cases k) (simp_all split: node.splits option.splits)
  qed (use Cons in simp_all)
qed

lemma testProperties_absent:
  "\<not> has ns (Some k) \<Longrightarrow>
   testProperties [Property (Some (Identifier k)) v] ns path =
     [(AtProperty (Property (Some (Identifier k)) v), makeMessage (Identifier k) path)]"
  by simp

lemma testProperties_null:
  "has ns (Some k) \<Longrightarrow> get ns (Some k) = None \<Longrightarrow>
   testProperties [Property (Some (Identifier k)) v] ns path = []"
  by simp

lemma testProperties_step:
  "has ns (Some k) \<Longrightarrow> get ns (Some k) = Some d \<Longrightarrow>
   testProperties [Property (Some (Identifier k)) v] ns path =
     testKey v (namespace d) (path @ [k])"
  by simp

lemma testKey_nest:
  "descend m segs = Some mk \<Longrightarrow>
   testKey (nest segs pat) (Some m) path = testKey pat (Some mk) (path @ segs)"
proof (induction segs arbitrary: m path)
  case Nil
  then show ?case by simp
next
  case (Cons s ss)
  from descend_Cons [OF Cons.prems] obtain d m' where
    h: "has m (Some s)" and g: "get m (Some s) = Some d" and n: "namespace d = Some m'"
    and r: "descend m' ss = Some mk"
    by auto
  have "testKey (nest (s # ss) pat) (Some m) path
          = testProperties [Property (Some (Identifier s)) (nest ss pat)] m path"
    by simp
  also have "\<dots> = testKey (nest ss pat) (Some m') (path @ [s])"
    using testProperties_step [OF h g] n by simp
  also have "\<dots> = testKey pat (Some mk) ((path @ [s]) @ ss)"
    by (rule Cons.IH [OF r])
  finally show ?case by simp
qed

lemma declarator_root:
  "nss n = Some m \<Longrightarrow> declaredScope e n = Some ''module'' \<Longrightarrow>
   VariableDeclarator_handler e nss pat (Some (Identifier n)) = testKey pat (Some m) [n]"
  by (simp add: VariableDeclarator_handler_def)

lemma declarator_nested:
  assumes "nss n = Some m" and "declaredScope e n = Some ''module''"
    and "descend m segs = Some mk"
  shows "VariableDeclarator_handler e nss (nest segs (ObjectPattern (pre @ p # post)))
           (Some (Identifier n))
         = testProperties pre mk (n # segs) @ testProperties [p] mk (n # segs)
             @ testProperties post mk (n # segs)"
proof -
  have "VariableDeclarator_handler e nss (nest segs (ObjectPattern (pre @ p # post)))
           (Some (Identifier n))
        = testKey (ObjectPattern (pre @ [p] @ post)) (Some mk) ([n] @ segs)"
    using assms by (simp add: declarator_root testKey_nest)
  also have "\<dots> = testProperties (pre @ [p] @ post) mk (n # segs)"
    by simp
  finally show ?thesis
    by (simp only: testProperties_append)
qed

lemma declarator_missing_key:
  assumes "nss n = Some m" and "declaredScope e n = Some ''module''"
    and "descend m segs = Some mk" and "\<not> has mk (Some k)"
  shows "VariableDeclarator_handler e nss
           (nest segs (ObjectPattern (pre @ Property (Some (Identifier k)) v # post)))
           (Some (Identifier n))
         = testProperties pre mk (n # segs)
             @ [(AtProperty (Property (Some (Identifier k)) v), makeMessage (Identifier k) (n # segs))]
             @ testProperties post mk (n # segs)"
  using assms
    declarator_nested [where nss = nss and n = n and m = m and e = e and segs = segs
      and mk = mk and pre = pre and post = post and p = "Property (Some (Identifier k)) v"]
    testProperties_absent [where ns = mk and k = k and v = v and path = "n # segs"]
  by (simp del: testProperties.simps)

text \<open>
  Claim C6. Take a declarator whose initialiser \<^verbatim>\<open>n\<close> has an entry in the table and is
  declared in module scope. First part: in an object pattern under keys \<^verbatim>\<open>s1...sk\<close> that
  resolve to nested export maps, a property whose key \<^verbatim>\<open>k\<close> the map reached does not export
  gets exactly one report, the not-found report with the path \<^verbatim>\<open>n.s1...sk\<close>; the properties
  before and after it are checked as they are without it, and the pattern under \<^verbatim>\<open>k\<close> is
  not looked at. Second part: \<^verbatim>\<open>{ a: { b } } = n\<close>, where \<^verbatim>\<open>a\<close> is a namespace of \<^verbatim>\<open>n\<close> that
  lacks \<^verbatim>\<open>b\<close>, gets exactly one report, for \<^verbatim>\<open>b\<close> with the path \<^verbatim>\<open>n.a\<close>. Third part: the same
  pattern, where \<^verbatim>\<open>n\<close> lacks \<^verbatim>\<open>a\<close>, gets exactly one report, for \<^verbatim>\<open>a\<close> with the path \<^verbatim>\<open>n\<close>,
  whatever \<^verbatim>\<open>b\<close> is.
\<close>

theorem missing_key_reported_siblings_continue:
  assumes "nss n = Some m" and "declaredScope e n = Some ''module''"
  shows "(descend m segs = Some mk \<and> \<not> has mk (Some k) \<longrightarrow>
            VariableDeclarator_handler e nss
              (nest segs (ObjectPattern (pre @ Property (Some (Identifier k)) v # post)))
              (Some (Identifier n))
            = testProperties pre mk (n # segs)
                @ [(AtProperty (Property (Some (Identifier k)) v),
                    quote @ k @ quote @ '' not found in ''
                      @ (if length (n # segs) > 1 then ''deeply '' else [])
                      @ ''imported namespace '' @ quote @ join (n # segs) ''.'' @ quote @ ''.'')]
                @ testProperties post mk (n # segs))
         \<and> (has m (Some a) \<and> get m (Some a) = Some d \<and> namespace d = Some ma
              \<and> \<not> has ma (Some b) \<longrightarrow>
            VariableDeclarator_handler e nss
              (ObjectPattern [Property (Some (Identifier a))
                 (ObjectPattern [Property (Some (Identifier b)) vb])])
              (Some (Identifier n))
            = [(AtProperty (Property (Some (Identifier b)) vb),
                quote @ b @ quote @ '' not found in deeply imported namespace ''
                  @ quote @ n @ ''.'' @ a @ quote @ ''.'')])
         \<and> (\<not> has m (Some a) \<longrightarrow>
            VariableDeclarator_handler e nss
              (ObjectPattern [Property (Some (Identifier a))
                 (ObjectPattern [Property (Some (Identifier b)) vb])])
              (Some (Identifier n))
            = [(AtProperty (Property (Some (Identifier a))
                  (ObjectPattern [Property (Some (Identifier b)) vb])),
                quote @ a @ quote @ '' not found in imported namespace ''
                  @ quote @ n @ quote @ ''.'')])"
proof (intro conjI impI)
  assume "descend m segs = Some mk \<and> \<not> has mk (Some k)"
  then show "VariableDeclarator_handler e nss
              (nest segs (ObjectPattern (pre @ Property (Some (Identifier k)) v # post)))
              (Some (Identifier n))
            = testProperties pre mk (n # segs)
                @ [(AtProperty (Property (Some (Identifier k)) v),
                    quote @ k @ quote @ '' not found in ''
                      @ (if length (n # segs) > 1 then ''deeply '' else [])
                      @ ''imported namespace '' @ quote @ join (n # segs) ''.'' @ quote @ ''.'')]
                @ testProperties post mk (n # segs)"
    using assms
      declarator_missing_key [where nss = nss and n = n and m = m and e = e and segs = segs
        and mk = mk and pre = pre and post = post and k = k and v = v]
    by (simp add: makeMessage_def del: testProperties.simps)
next
  assume "has m (Some a) \<and> get m (Some a) = Some d \<and> namespace d = Some ma
            \<and> \<not> has ma (Some b)"
  then have "descend m [a] = Some ma" and "\<not> has ma (Some b)" by simp_all
  then show "VariableDeclarator_handler e nss
              (ObjectPattern [Property (Some (Identifier a))
                 (ObjectPattern [Property (Some (Identifier b)) vb])])
              (Some (Identifier n))
            = [(AtProperty (Property (Some (Identifier b)) vb),
                quote @ b @ quote @ '' not found in deeply imported namespace ''
                  @ quote @ n @ ''.'' @ a @ quote @ ''.'')]"
    using assms
      declarator_missing_key [where nss = nss and n = n and m = m and e = e and segs = "[a]"
        and mk = ma and pre = "[]" and post = "[]" and k = b and v = vb]
    by (simp del: testProperties.simps descend.simps add: makeMessage_def testProperties.simps(1))
next
  assume "\<not> has m (Some a)"
  then show "VariableDeclarator_handler e nss
              (ObjectPattern [Property (Some (Identifier a))
                 (ObjectPattern [Property (Some (Identifier b)) vb])])
              (Some (Identifier n))
            = [(AtProperty (Property (Some (Identifier a))
                  (ObjectPattern [Property (Some (Identifier b)) vb])),
                quote @ a @ quote @ '' not found in imported namespace ''
                  @ quote @ n @ quote @ ''.'')]"
    using assms
      declarator_missing_key [where nss = nss and n = n and m = m and e = e and segs = "[]"
        and mk = m and pre = "[]" and post = "[]" and k = a
        and v = "ObjectPattern [Property (Some (Identifier b)) vb]"]
    by (simp del: testProperties.simps add: makeMessage_def testProperties.simps(1))
qed

theorem missing_key_reported_siblings_continue_witness:
  "ex_nss ''ns'' = Some ex_root \<and> declaredScope ex_env ''ns'' = Some ''module''
   \<and> has ex_root (Some ''a'') \<and> get ex_root (Some ''a'') = Some (Descriptor (Some ex_inner))
   \<and> \<not> has ex_inner (Some ''c'') \<and> \<not> has ex_root (Some ''z'')
   \<and> VariableDeclarator_handler ex_env ex_nss
        (ObjectPattern [Property (Some (Identifier ''a''))
           (ObjectPattern [Property (Some (Identifier ''c'')) (OtherPattern ''Identifier'')])])
        (Some (Identifier ''ns''))
      = [(AtProperty (Property (Some (Identifier ''c'')) (OtherPattern ''Identifier'')),
          '''c' not found in deeply imported namespace 'ns.a'.'')]
   \<and> VariableDeclarator_handler ex_env ex_nss
        (ObjectPattern [Property (Some (Identifier ''z''))
           (ObjectPattern [Property (Some (Identifier ''c'')) (OtherPattern ''Identifier'')])])
        (Some (Identifier ''ns''))
      = [(AtProperty (Property (Some (Identifier ''z''))
            (ObjectPattern [Property (Some (Identifier ''c'')) (OtherPattern ''Identifier'')])),
          '''z' not found in imported namespace 'ns'.'')]
   \<and> VariableDeclarator_handler ex_env ex_nss
        (ObjectPattern [Property (Some (Identifier ''z''))
           (ObjectPattern [Property (Some (Identifier ''c'')) (OtherPattern ''Identifier'')]),
           Property (Some (Identifier ''y'')) (OtherPattern ''Identifier'')])
        (Some (Identifier ''ns''))
      = [(AtProperty (Property (Some (Identifier ''z''))
            (ObjectPattern [Property (Some (Identifier ''c'')) (OtherPattern ''Identifier'')])),
          '''z' not found in imported namespace 'ns'.''),
         (AtProperty (Property (Some (Identifier ''y'')) (OtherPattern ''Identifier'')),
          '''y' not found in imported namespace 'ns'.'')]"
proof -
  have h1: "ex_nss ''ns'' = Some ex_root" by (simp add: ex_nss_def)
  have h2: "declaredScope ex_env ''ns'' = Some ''module''" by (simp add: ex_env_def)
  have h3: "has ex_root (Some ''a'')" by (simp add: ex_root_def has_def)
  have h4: "get ex_root (Some ''a'') = Some (Descriptor (Some ex_inner))"
    by (simp add: ex_root_def get_def)
  have h5: "\<not> has ex_inner (Some ''c'')" by (simp add: ex_inner_def has_def)
  have h6: "\<not> has ex_root (Some ''z'')" by (simp add: ex_root_def has_def)
  have h7: "\<not> has ex_root (Some ''y'')" by (simp add: ex_root_def has_def)
  have h8: "descend ex_root [] = Some ex_root" by simp
  show ?thesis
    using missing_key_reported_siblings_continue [where nss = ex_nss and n = "''ns''"
        and m = ex_root and e = ex_env and a = "''a''" and d = "Descriptor (Some ex_inner)"
        and ma = ex_inner and b = "''c''" and vb = "OtherPattern ''Identifier''"]
      missing_key_reported_siblings_continue [where nss = ex_nss and n = "''ns''"
        and m = ex_root and e = ex_env and a = "''z''" and b = "''c''"
        and vb = "OtherPattern ''Identifier''"
        and segs = "[]" and mk = ex_root and k = "''z''"
        and pre = "[]" and post = "[Property (Some (Identifier ''y'')) (OtherPattern ''Identifier'')]"
        and v = "ObjectPattern [Property (Some (Identifier ''c'')) (OtherPattern ''Identifier'')]"]
      h1 h2 h3 h4 h5 h6 h7 h8
    by (simp add: quote_def makeMessage_def)
qed

text \<open>
  Claim C5. Let the root \<^verbatim>\<open>n\<close> have an entry in the table and be declared in module scope,
  let the names \<^verbatim>\<open>s1...sk\<close> resolve to nested export maps, and let the map reached export
  \<^verbatim>\<open>x\<close> while \<^verbatim>\<open>get\<close> yields \<^verbatim>\<open>null\<close> for it. Then the loop over the chain \<^verbatim>\<open>n.s1...sk.x\<close> makes
  no report, whatever follows \<^verbatim>\<open>x\<close> (the only report there can be is the one for an
  assignment to \<^verbatim>\<open>n.x\<close>, made before the loop starts); and in a pattern under the keys
  \<^verbatim>\<open>s1...sk\<close> the property with the key \<^verbatim>\<open>x\<close> gets no report and the pattern under it is not
  looked at, while its siblings are checked as they are without it. A name that the map
  does not export is a different case: there the loop and the pattern check each make the
  not-found report.
\<close>

theorem null_export_stops_silently:
  assumes "nss n = Some m" and "declaredScope e n = Some ''module''"
    and "descend m segs = Some mk" and "has mk (Some x)" and "get mk (Some x) = None"
  shows "visitChain e nss (Identifier n) (dotted (segs @ [x]) up)
           = (if segs = [] then assignmentReport (MemberExpression (Identifier n) (Identifier x) False) up
              else [])
         \<and> VariableDeclarator_handler e nss
             (nest segs (ObjectPattern (pre @ Property (Some (Identifier x)) v # post)))
             (Some (Identifier n))
           = testProperties pre mk (n # segs) @ testProperties post mk (n # segs)
         \<and> (\<forall>mk'. \<not> has mk' (Some x) \<longrightarrow>
               walk ac (Some mk') path (MemberExpression ob (Identifier x) False) par
                 = [(AtNode (Identifier x), makeMessage (Identifier x) path)]
               \<and> testProperties [Property (Some (Identifier x)) v] mk' path
                 = [(AtProperty (Property (Some (Identifier x)) v), makeMessage (Identifier x) path)])"
proof (intro conjI allI impI)
  show "visitChain e nss (Identifier n) (dotted (segs @ [x]) up)
           = (if segs = [] then assignmentReport (MemberExpression (Identifier n) (Identifier x) False) up
              else [])"
  proof (cases segs)
    case Nil
    with assms have "has m (Some x)" "get m (Some x) = None" by simp_all
    then have "walk (allowComputed e) (Some m) [n]
        (MemberExpression (Identifier n) (Identifier x) False) up = []"
      using walk_null [of m "Identifier x"] by simp
    with Nil assms(1,2) show ?thesis
      by (simp add: visitChain_member handler_root del: walk.simps)
  next
    case (Cons s ss)
    have "walk (allowComputed e) (Some m) [n] (MemberExpression (Identifier n) (Identifier s) False)
            (dotted ss (MemberObject (Identifier x) False up))
          = walk (allowComputed e) (Some mk) ([n] @ s # ss)
              (MemberExpression (selects (MemberExpression (Identifier n) (Identifier s) False) ss)
                 (Identifier x) False) up"
      using assms(3) Cons by (intro walk_resolved) simp
    also have "\<dots> = []"
      using assms(4,5) walk_null [of mk "Identifier x"] by simp
    finally show ?thesis
      using Cons assms(1,2)
      by (simp add: visitChain_member handler_root dotted_append assignmentReport_inner
            del: walk.simps)
  qed
next
  show "VariableDeclarator_handler e nss
          (nest segs (ObjectPattern (pre @ Property (Some (Identifier x)) v # post)))
          (Some (Identifier n))
        = testProperties pre mk (n # segs) @ testProperties post mk (n # segs)"
    using assms
      declarator_nested [where nss = nss and n = n and m = m and e = e and segs = segs
        and mk = mk and pre = pre and post = post and p = "Property (Some (Identifier x)) v"]
      testProperties_null [where ns = mk and k = x and v = v and path = "n # segs"]
    by (simp del: testProperties.simps)
next
  fix mk' assume "\<not> has mk' (Some x)"
  then show "walk ac (Some mk') path (MemberExpression ob (Identifier x) False) par
                 = [(AtNode (Identifier x), makeMessage (Identifier x) path)]"
    using walk_absent [of mk' "Identifier x"] by simp
next
  fix mk' assume "\<not> has mk' (Some x)"
  then show "testProperties [Property (Some (Identifier x)) v] mk' path
                 = [(AtProperty (Property (Some (Identifier x)) v), makeMessage (Identifier x) path)]"
    by (rule testProperties_absent)
qed

theorem null_export_stops_silently_witness:
  "ex_nss ''ns'' = Some ex_root \<and> declaredScope ex_env ''ns'' = Some ''module''
   \<and> descend ex_root [''a''] = Some ex_inner
   \<and> has ex_inner (Some ''u'') \<and> get ex_inner (Some ''u'') = None
   \<and> visitChain ex_env ex_nss (Identifier ''ns'')
        (dotted ([''a''] @ [''u''])
           (MemberObject (Identifier ''d'') False (OtherParent ''ExpressionStatement''))) = []
   \<and> VariableDeclarator_handler ex_env ex_nss
        (ObjectPattern [Property (Some (Identifier ''a''))
           (ObjectPattern [Property (Some (Identifier ''u''))
              (ObjectPattern [Property (Some (Identifier ''d'')) (OtherPattern ''Identifier'')])])])
        (Some (Identifier ''ns'')) = []"
proof -
  have h1: "ex_nss ''ns'' = Some ex_root" by (simp add: ex_nss_def)
  have h2: "declaredScope ex_env ''ns'' = Some ''module''" by (simp add: ex_env_def)
  have h3: "descend ex_root [''a''] = Some ex_inner" by (simp add: ex_root_def has_def get_def)
  have h4: "has ex_inner (Some ''u'')" by (simp add: ex_inner_def has_def)
  have h5: "get ex_inner (Some ''u'') = None" by (simp add: ex_inner_def get_def)
  show ?thesis
    using null_export_stops_silently [where nss = ex_nss and n = "''ns''"
        and m = ex_root and e = ex_env and segs = "[''a'']" and mk = ex_inner and x = "''u''"
        and up = "MemberObject (Identifier ''d'') False (OtherParent ''ExpressionStatement'')"
        and pre = "[]" and post = "[]"
        and v = "ObjectPattern [Property (Some (Identifier ''d'')) (OtherPattern ''Identifier'')]"]
      h1 h2 h3 h4 h5
    by simp
qed

section \<open>Properties of the import collection\<close>

lemma processBodyStatement_clean:
  "resolve e src = Some imps \<Longrightarrow> errors imps = [] \<Longrightarrow> specs \<noteq> [] \<Longrightarrow>
   processBodyStatement e nss (ImportDeclaration src specs) =
     processSpecifiers src imps specs nss"
  by (simp add: processBodyStatement_def)

lemma get_empty: "size_em imps = 0 \<Longrightarrow> get imps k = None"
  by (cases k) (simp_all add: size_em_def get_def)

lemma processSpecifiers_empty:
  "size_em imps = 0 \<Longrightarrow>
   processSpecifiers src imps specs nss =
     (\<lambda>l. if ImportNamespaceSpecifier l \<in> set specs then Some imps else nss l,
      map (\<lambda>s. (AtSpecifier s, emptyMessage src)) (filter isNamespaceSpecifier specs))"
proof (induction specs arbitrary: nss)
  case Nil
  show ?case by simp
next
  case (Cons s ss)
  show ?case
  proof (cases s)
    case (ImportNamespaceSpecifier l)
    with Cons show ?thesis by (auto simp: fun_eq_iff)
  next
    case (ImportDefaultSpecifier l)
    with Cons show ?thesis by (simp add: bindNamed_def get_empty)
  next
    case (ImportSpecifier imp l)
    with Cons show ?thesis by (simp add: bindNamed_def get_empty)
  qed
qed

text \<open>
  Claim C7. Let the module of an import declaration resolve to an export map without errors
  and of size zero. Then the reports of the statement are the empty-namespace reports, one
  for each wildcard specifier of the declaration, at that specifier (the grammar allows
  one wildcard specifier in a declaration, so it is one report); and the table maps the
  local name of a wildcard specifier to that export map afterwards.
\<close>

theorem empty_namespace_reported_and_bound:
  assumes "resolve e src = Some imps" and "errors imps = []" and "size_em imps = 0"
    and "ImportNamespaceSpecifier loc \<in> set specs"
  shows "snd (processBodyStatement e nss (ImportDeclaration src specs))
           = map (\<lambda>s. (AtSpecifier s,
                         ''No exported names found in module '' @ quote @ src @ quote @ ''.''))
               (filter isNamespaceSpecifier specs)
         \<and> fst (processBodyStatement e nss (ImportDeclaration src specs)) loc = Some imps"
proof -
  from assms(4) have "specs \<noteq> []" by auto
  with assms show ?thesis
    by (simp add: processBodyStatement_clean processSpecifiers_empty emptyMessage_def)
qed

theorem empty_namespace_reported_and_bound_witness:
  "resolve ex_env ''./empty'' = Some ex_empty \<and> errors ex_empty = [] \<and> size_em ex_empty = 0
   \<and> processBodyStatement ex_env Map.empty
        (ImportDeclaration ''./empty'' [ImportDefaultSpecifier ''d'', ImportNamespaceSpecifier ''ns''])
      = ([''ns'' \<mapsto> ex_empty],
         [(AtSpecifier (ImportNamespaceSpecifier ''ns''),
           ''No exported names found in module './empty'.'')])"
proof -
  have h1: "resolve ex_env ''./empty'' = Some ex_empty" by (simp add: ex_env_def ex_resolve_def)
  have h2: "errors ex_empty = []" by (simp add: ex_empty_def)
  have h3: "size_em ex_empty = 0" by (simp add: ex_empty_def size_em_def)
  have h4: "ImportNamespaceSpecifier ''ns''
              \<in> set [ImportDefaultSpecifier ''d'', ImportNamespaceSpecifier ''ns'']"
    by simp
  have h5: "fst (processBodyStatement ex_env Map.empty
        (ImportDeclaration ''./empty'' [ImportDefaultSpecifier ''d'', ImportNamespaceSpecifier ''ns'']))
      = [''ns'' \<mapsto> ex_empty]"
    by (simp add: processBodyStatement_def ex_env_def ex_resolve_def ex_empty_def
          bindNamed_def get_def size_em_def)
  show ?thesis
    using empty_namespace_reported_and_bound [where e = ex_env and src = "''./empty''"
        and imps = ex_empty and loc = "''ns''" and nss = Map.empty
        and specs = "[ImportDefaultSpecifier ''d'', ImportNamespaceSpecifier ''ns'']"]
      h1 h2 h3 h4 h5
    by (simp add: quote_def prod_eq_iff)
qed

lemma processSpecifier_source:
  "fst (processSpecifier src imps s nss) l = Some ns \<Longrightarrow>
   nss l = Some ns \<or> (local_name s = l \<and> specifierNamespace imps s = Some ns)"
  by (cases s) (auto simp: bindNamed_def split: option.splits if_splits)

lemma processSpecifiers_source:
  "fst (processSpecifiers src imps specs nss) l = Some ns \<Longrightarrow>
   nss l = Some ns
   \<or> list_ex (\<lambda>s. local_name s = l \<and> specifierNamespace imps s = Some ns) specs"
proof (induction specs arbitrary: nss)
  case Nil
  then show ?case by simp
next
  case (Cons s ss)
  from Cons.prems
  have "fst (processSpecifiers src imps ss (fst (processSpecifier src imps s nss))) l = Some ns"
    by (simp add: split_beta)
  from Cons.IH [OF this]
  show ?case
  proof
    assume "fst (processSpecifier src imps s nss) l = Some ns"
    from processSpecifier_source [OF this] show ?thesis by auto
  next
    assume "list_ex (\<lambda>s. local_name s = l \<and> specifierNamespace imps s = Some ns) ss"
    then show ?thesis by simp
  qed
qed

lemma processBodyStatement_source:
  "fst (processBodyStatement e nss stmt) l = Some ns \<Longrightarrow>
   nss l = Some ns \<or> bindsTo e l ns stmt"
proof (cases stmt)
  case (OtherStatement t)
  assume "fst (processBodyStatement e nss stmt) l = Some ns"
  with OtherStatement show ?thesis by (simp add: processBodyStatement_def)
next
  case (ImportDeclaration src specs)
  assume a: "fst (processBodyStatement e nss stmt) l = Some ns"
  show ?thesis
  proof (cases "specs \<noteq> [] \<and> (\<exists>imps. resolve e src = Some imps \<and> errors imps = [])")
    case True
    then obtain imps where r: "resolve e src = Some imps" "errors imps = []" "specs \<noteq> []"
      by auto
    with a ImportDeclaration
    have "fst (processSpecifiers src imps specs nss) l = Some ns"
      by (simp add: processBodyStatement_clean)
    from processSpecifiers_source [OF this] r ImportDeclaration show ?thesis
      by (auto simp: bindsTo_def)
  next
    case False
    with a ImportDeclaration show ?thesis
      by (auto simp: processBodyStatement_def split: option.splits if_splits)
  qed
qed

lemma processBody_source:
  "fst (processBody e body nss) l = Some ns \<Longrightarrow>
   nss l = Some ns \<or> list_ex (bindsTo e l ns) body"
proof (induction body arbitrary: nss)
  case Nil
  then show ?case by simp
next
  case (Cons x xs)
  from Cons.prems
  have "fst (processBody e xs (fst (processBodyStatement e nss x))) l = Some ns"
    by (simp add: split_beta)
  from Cons.IH [OF this]
  show ?case
  proof
    assume "fst (processBodyStatement e nss x) l = Some ns"
    from processBodyStatement_source [OF this] show ?thesis by auto
  next
    assume "list_ex (bindsTo e l ns) xs"
    then show ?thesis by simp
  qed
qed

text \<open>
  Claim C2. When the export map that \<^verbatim>\<open>processBodyStatement\<close> resolves for an import
  declaration has errors, the reports of the statement are the errors, each attached to
  the declaration, and the table is left as it is: no specifier of the declaration is
  bound. After \<^verbatim>\<open>Program\<close>, a local name is mapped to a namespace only if the body has an
  import declaration whose export map resolved without errors and that has a specifier
  with that local name standing for that namespace.
\<close>

theorem errors_forwarded_and_no_binding:
  "(resolvedExportMap e decl = Some imps \<and> errors imps \<noteq> [] \<longrightarrow>
      processBodyStatement e nss decl
        = (nss, map (\<lambda>er. (AtDeclaration decl, er)) (errors imps)))
   \<and> (fst (Program e body) l = Some ns \<longrightarrow> list_ex (bindsTo e l ns) body)"
proof (intro conjI impI)
  assume "resolvedExportMap e decl = Some imps \<and> errors imps \<noteq> []"
  then show "processBodyStatement e nss decl
        = (nss, map (\<lambda>er. (AtDeclaration decl, er)) (errors imps))"
    by (cases decl)
       (auto simp: resolvedExportMap_def processBodyStatement_def reportErrors_def
             split: if_splits)
next
  assume "fst (Program e body) l = Some ns"
  then show "list_ex (bindsTo e l ns) body"
    using processBody_source [of e body Map.empty l ns] by (simp add: Program_def)
qed

theorem errors_forwarded_and_no_binding_witness:
  "resolvedExportMap ex_env
     (ImportDeclaration ''./broken''
        [ImportNamespaceSpecifier ''bad'', ImportSpecifier (ImportedIdentifier ''a'') ''a''])
     = Some ex_broken
   \<and> errors ex_broken \<noteq> []
   \<and> processBodyStatement ex_env [''ns'' \<mapsto> ex_root]
        (ImportDeclaration ''./broken'' [ImportNamespaceSpecifier ''bad'', ImportSpecifier (ImportedIdentifier ''a'') ''a''])
      = ([''ns'' \<mapsto> ex_root],
         [(AtDeclaration (ImportDeclaration ''./broken''
             [ImportNamespaceSpecifier ''bad'', ImportSpecifier (ImportedIdentifier ''a'') ''a'']),
           ''parse error'')])
   \<and> fst (Program ex_env
        [ImportDeclaration ''./broken'' [ImportNamespaceSpecifier ''bad''],
         ImportDeclaration ''./m'' [ImportSpecifier (ImportedIdentifier ''a'') ''inner'']]) ''inner''
      = Some ex_inner
   \<and> list_ex (bindsTo ex_env ''inner'' ex_inner)
        [ImportDeclaration ''./broken'' [ImportNamespaceSpecifier ''bad''],
         ImportDeclaration ''./m'' [ImportSpecifier (ImportedIdentifier ''a'') ''inner'']]
   \<and> fst (Program ex_env
        [ImportDeclaration ''./broken'' [ImportNamespaceSpecifier ''bad''],
         ImportDeclaration ''./m'' [ImportSpecifier (ImportedIdentifier ''a'') ''inner'']]) ''bad''
      = None"
proof -
  have h1: "resolvedExportMap ex_env
     (ImportDeclaration ''./broken''
        [ImportNamespaceSpecifier ''bad'', ImportSpecifier (ImportedIdentifier ''a'') ''a''])
     = Some ex_broken"
    by (simp add: resolvedExportMap_def ex_env_def ex_resolve_def)
  have h2: "errors ex_broken \<noteq> []" by (simp add: ex_broken_def)
  have h2': "errors ex_broken = [''parse error'']" by (simp add: ex_broken_def)
  have h3: "fst (Program ex_env
        [ImportDeclaration ''./broken'' [ImportNamespaceSpecifier ''bad''],
         ImportDeclaration ''./m'' [ImportSpecifier (ImportedIdentifier ''a'') ''inner'']])
      = [''inner'' \<mapsto> ex_inner]"
    by (simp add: Program_def processBodyStatement_def ex_env_def ex_resolve_def ex_broken_def
          ex_root_def bindNamed_def get_def importedName_def)
  show ?thesis
    using errors_forwarded_and_no_binding [where e = ex_env
        and imps = ex_broken and nss = "[''ns'' \<mapsto> ex_root]"
        and decl = "ImportDeclaration ''./broken''
          [ImportNamespaceSpecifier ''bad'', ImportSpecifier (ImportedIdentifier ''a'') ''a'']"
        and body = "[ImportDeclaration ''./broken'' [ImportNamespaceSpecifier ''bad''],
         ImportDeclaration ''./m'' [ImportSpecifier (ImportedIdentifier ''a'') ''inner'']]"
        and l = "''inner''" and ns = ex_inner]
      h1 h2 h2' h3
    by (simp add: prod_eq_iff)
qed

end
